theory Spec2Isabelle
  imports Main "HOL-Library.Product_Lexorder" "HOL-Library.Multiset"
begin

section \<open>Text operations of the Python runtime used by the program\<close>

text \<open>
  A Python \<open>str\<close> is modelled as a \<open>string\<close> whose characters are the code points
  0..255. \<open>isspace\<close>, \<open>lower\<close> and \<open>strip\<close> follow \<open>str.isspace\<close>, \<open>str.lower\<close> and
  \<open>str.strip\<close> on that range.
\<close>

definition isspace :: "char \<Rightarrow> bool" where
  "isspace c =
     (let n = (of_char c :: nat)
      in (9 \<le> n \<and> n \<le> 13) \<or> (28 \<le> n \<and> n \<le> 32) \<or> n = 133 \<or> n = 160)"

definition isupper :: "char \<Rightarrow> bool" where
  "isupper c =
     (let n = (of_char c :: nat)
      in (65 \<le> n \<and> n \<le> 90) \<or> (192 \<le> n \<and> n \<le> 222 \<and> n \<noteq> 215))"

definition lower_char :: "char \<Rightarrow> char" where
  "lower_char c = (if isupper c then char_of ((of_char c :: nat) + 32) else c)"

definition lower :: "string \<Rightarrow> string" where
  "lower s = map lower_char s"

definition strip :: "string \<Rightarrow> string" where
  "strip s = rev (dropWhile isspace (rev (dropWhile isspace s)))"

text \<open>\<open>s.split(" ")\<close>: every single space separates, so empty tokens are kept.\<close>

fun split_sp :: "string \<Rightarrow> string list" where
  "split_sp [] = [[]]"
| "split_sp (c # cs) =
     (if c = CHR '' '' then [] # split_sp cs
      else (case split_sp cs of [] \<Rightarrow> [[c]] | w # ws \<Rightarrow> (c # w) # ws))"

text \<open>\<open>" ".join(parts)\<close>.\<close>

fun join_sp :: "string list \<Rightarrow> string" where
  "join_sp [] = []"
| "join_sp [w] = w"
| "join_sp (w # ws) = w @ CHR '' '' # join_sp ws"

text \<open>\<open>needle in haystack\<close> for two strings: substring test.\<close>

fun substring_of :: "string \<Rightarrow> string \<Rightarrow> bool" where
  "substring_of p [] = (p = [])"
| "substring_of p (c # cs) = (take (length p) (c # cs) = p \<or> substring_of p cs)"

section \<open>Decoded JSON values and the Python operations applied to them\<close>

text \<open>
  The value \<open>json.loads\<close> returns. An object is an association list read with \<open>map_of\<close>;
  the payload of a number is never inspected by the program and is left open.
\<close>

datatype 'n json =
    JNull
  | JBool bool
  | JNum 'n
  | JStr string
  | JArr "'n json list"
  | JObj "(string \<times> 'n json) list"

datatype error = ValueError | KeyError | TypeError | AttributeError | IndexError

text \<open>\<open>v[k]\<close> with a string key \<open>k\<close>.\<close>

fun getitem :: "'n json \<Rightarrow> string \<Rightarrow> error + 'n json" where
  "getitem (JObj kvs) k = (case map_of kvs k of None \<Rightarrow> Inl KeyError | Some v \<Rightarrow> Inr v)"
| "getitem _ k = Inl TypeError"

text \<open>\<open>k in v\<close> with a string \<open>k\<close>: key of a dict, element of a list, substring of a string.\<close>

fun contains :: "'n json \<Rightarrow> string \<Rightarrow> error + bool" where
  "contains (JObj kvs) k = Inr (k \<in> set (map fst kvs))"
| "contains (JArr xs) k = Inr (JStr k \<in> set xs)"
| "contains (JStr s) k = Inr (substring_of k s)"
| "contains _ k = Inl TypeError"

text \<open>\<open>len(v)\<close>.\<close>

fun len :: "'n json \<Rightarrow> error + int" where
  "len (JObj kvs) = Inr (int (length (remdups (map fst kvs))))"
| "len (JArr xs) = Inr (int (length xs))"
| "len (JStr s) = Inr (int (length s))"
| "len _ = Inl TypeError"

text \<open>The items \<open>for tag in v\<close> visits.\<close>

fun iter :: "'n json \<Rightarrow> error + 'n json list" where
  "iter (JObj kvs) = Inr (map JStr (remdups (map fst kvs)))"
| "iter (JArr xs) = Inr xs"
| "iter (JStr s) = Inr (map (\<lambda>c. JStr [c]) s)"
| "iter _ = Inl TypeError"

section \<open>The counts mapping\<close>

text \<open>
  \<open>counts = defaultdict(int)\<close>, kept in insertion order as \<open>counts.items()\<close> lists it.
  \<open>incr k\<close> is \<open>counts[k] += 1\<close>.
\<close>

type_synonym counts = "(string \<times> int) list"

fun incr :: "string \<Rightarrow> counts \<Rightarrow> counts" where
  "incr k [] = [(k, 1)]"
| "incr k ((k', v) # r) = (if k = k' then (k', v + 1) # r else (k', v) # incr k r)"


text \<open>Line 74: \<open>"#" + tag["text"].lower().strip()\<close>.\<close>

definition hashtag_key :: "string \<Rightarrow> string" where
  "hashtag_key t = CHR ''#'' # strip (lower t)"

definition tag_text :: "'n json \<Rightarrow> error + string" where
  "tag_text tag =
     (case getitem tag ''text'' of
        Inl e \<Rightarrow> Inl e
      | Inr v \<Rightarrow> (case v of JStr t \<Rightarrow> Inr t | _ \<Rightarrow> Inl AttributeError))"

text \<open>
  Lines 73-75, the loop over the hashtag entities. An exception leaves the loop with the
  increments made so far in place.
\<close>

fun count_tags :: "'n json list \<Rightarrow> counts \<Rightarrow> counts \<times> error option" where
  "count_tags [] c = (c, None)"
| "count_tags (tag # tags) c =
     (case tag_text tag of
        Inl e \<Rightarrow> (c, Some e)
      | Inr t \<Rightarrow> count_tags tags (incr (hashtag_key t) c))"

section \<open>Timestamps and \<open>datetime.strptime\<close>\<close>

text \<open>
  A \<open>datetime\<close> value. \<open>utcoffset\<close> is \<open>None\<close> for a naive timestamp and the offset in
  microseconds for an aware one. Python orders naive timestamps field by field.
\<close>

record datetime =
  year :: nat
  month :: nat
  day :: nat
  hour :: nat
  minute :: nat
  second :: nat
  utcoffset :: "int option"

definition dt_key :: "datetime \<Rightarrow> nat \<times> nat \<times> nat \<times> nat \<times> nat \<times> nat" where
  "dt_key d = (year d, month d, day d, hour d, minute d, second d)"

definition dt_less :: "datetime \<Rightarrow> datetime \<Rightarrow> bool" where
  "dt_less a b = (dt_key a < dt_key b)"

definition is_leap :: "nat \<Rightarrow> bool" where
  "is_leap y = (y mod 4 = 0 \<and> (y mod 100 \<noteq> 0 \<or> y mod 400 = 0))"

definition days_in_month :: "nat \<Rightarrow> nat \<Rightarrow> nat" where
  "days_in_month y m =
     (if m = 2 then (if is_leap y then 29 else 28)
      else if m = 4 \<or> m = 6 \<or> m = 9 \<or> m = 11 then 30 else 31)"

text \<open>
  \<open>strptime\<close> turns the format into a regular expression, takes its first match at the
  start of the text, rejects text left over, and builds the timestamp, which rejects
  values out of range. A matcher lists its matches in the order the expression tries
  them, so the head of the list is the match Python takes. The directives are those of
  CPython 3.7 and later in the C locale; every failure is a \<open>ValueError\<close>.
\<close>

datatype item =
    Weekday | Month | Day | Hour | Minute | Second | Year | MonthNum | Zone
  | Space | Lit char

record fields =
  f_year :: nat
  f_month :: nat
  f_day :: nat
  f_hour :: nat
  f_minute :: nat
  f_second :: nat
  f_zone :: "int option"
  f_bad :: bool

definition isdigit :: "char \<Rightarrow> bool" where
  "isdigit c = (let n = (of_char c :: nat) in 48 \<le> n \<and> n \<le> 57)"

definition digit :: "char \<Rightarrow> nat" where
  "digit c = (of_char c :: nat) - 48"

fun two_digits :: "(nat \<Rightarrow> nat \<Rightarrow> bool) \<Rightarrow> string \<Rightarrow> (nat \<times> string) list" where
  "two_digits ok (a # b # r) =
     (if isdigit a \<and> isdigit b \<and> ok (digit a) (digit b)
      then [(10 * digit a + digit b, r)] else [])"
| "two_digits ok _ = []"

fun one_digit :: "(nat \<Rightarrow> bool) \<Rightarrow> string \<Rightarrow> (nat \<times> string) list" where
  "one_digit ok (a # r) = (if isdigit a \<and> ok (digit a) then [(digit a, r)] else [])"
| "one_digit ok [] = []"

text \<open>\<open>%d\<close> is \<open>3[0-1]|[1-2]\d|0[1-9]|[1-9]| [1-9]\<close>.\<close>

definition match_day :: "string \<Rightarrow> (nat \<times> string) list" where
  "match_day s =
     two_digits (\<lambda>a b. a = 3 \<and> b \<le> 1) s @ two_digits (\<lambda>a b. 1 \<le> a \<and> a \<le> 2) s
     @ two_digits (\<lambda>a b. a = 0 \<and> 1 \<le> b) s @ one_digit (\<lambda>a. 1 \<le> a) s
     @ (case s of [] \<Rightarrow> []
        | c # r \<Rightarrow> if c = CHR '' '' then one_digit (\<lambda>a. 1 \<le> a) r else [])"

text \<open>\<open>%H\<close> is \<open>2[0-3]|[0-1]\d|\d\<close>.\<close>

definition match_hour :: "string \<Rightarrow> (nat \<times> string) list" where
  "match_hour s =
     two_digits (\<lambda>a b. a = 2 \<and> b \<le> 3) s @ two_digits (\<lambda>a b. a \<le> 1) s
     @ one_digit (\<lambda>a. True) s"

text \<open>\<open>%M\<close> is \<open>[0-5]\d|\d\<close>.\<close>

definition match_minute :: "string \<Rightarrow> (nat \<times> string) list" where
  "match_minute s = two_digits (\<lambda>a b. a \<le> 5) s @ one_digit (\<lambda>a. True) s"

text \<open>\<open>%S\<close> is \<open>6[0-1]|[0-5]\d|\d\<close>.\<close>

definition match_second :: "string \<Rightarrow> (nat \<times> string) list" where
  "match_second s =
     two_digits (\<lambda>a b. a = 6 \<and> b \<le> 1) s @ two_digits (\<lambda>a b. a \<le> 5) s
     @ one_digit (\<lambda>a. True) s"

text \<open>\<open>%m\<close> is \<open>1[0-2]|0[1-9]|[1-9]\<close>.\<close>

definition match_monthnum :: "string \<Rightarrow> (nat \<times> string) list" where
  "match_monthnum s =
     two_digits (\<lambda>a b. a = 1 \<and> b \<le> 2) s @ two_digits (\<lambda>a b. a = 0 \<and> 1 \<le> b) s
     @ one_digit (\<lambda>a. 1 \<le> a) s"

text \<open>\<open>%Y\<close> is \<open>\d\d\d\d\<close>.\<close>

fun match_year :: "string \<Rightarrow> (nat \<times> string) list" where
  "match_year (a # b # c # d # r) =
     (if isdigit a \<and> isdigit b \<and> isdigit c \<and> isdigit d
      then [(1000 * digit a + 100 * digit b + 10 * digit c + digit d, r)] else [])"
| "match_year _ = []"

text \<open>\<open>%a\<close> and \<open>%b\<close>: the abbreviated names, matched without regard to case.\<close>

definition a_weekday :: "string list" where
  "a_weekday = [''mon'', ''tue'', ''wed'', ''thu'', ''fri'', ''sat'', ''sun'']"

definition a_month :: "string list" where
  "a_month = [''jan'', ''feb'', ''mar'', ''apr'', ''may'', ''jun'',
              ''jul'', ''aug'', ''sep'', ''oct'', ''nov'', ''dec'']"

fun index_of :: "'a \<Rightarrow> 'a list \<Rightarrow> nat option" where
  "index_of x [] = None"
| "index_of x (y # ys) =
     (if x = y then Some 0 else (case index_of x ys of None \<Rightarrow> None | Some i \<Rightarrow> Some (Suc i)))"

definition match_name :: "string list \<Rightarrow> string \<Rightarrow> (nat \<times> string) list" where
  "match_name names s =
     (if length s < 3 then []
      else (case index_of (lower (take 3 s)) names of
              None \<Rightarrow> []
            | Some i \<Rightarrow> [(i, drop 3 s)]))"

text \<open>White space in the format is \<open>\s+\<close>: one or more, the longest run first.\<close>

definition match_space :: "string \<Rightarrow> string list" where
  "match_space s =
     map (\<lambda>k. drop k s) (rev [1 ..< Suc (length (takeWhile isspace s))])"

text \<open>
  \<open>%z\<close> is \<open>[+-]\d\d:?[0-5]\d(:?[0-5]\d(\.\d{1,6})?)?|Z\<close>. The matchers below give the
  text left after each way of matching, optional parts present first.
\<close>

definition opt_colon :: "string \<Rightarrow> string list" where
  "opt_colon r = (case r of [] \<Rightarrow> [r] | c # r' \<Rightarrow> if c = CHR '':'' then [r', r] else [r])"

fun sixty :: "string \<Rightarrow> string list" where
  "sixty (a # b # r) = (if isdigit a \<and> digit a \<le> 5 \<and> isdigit b then [r] else [])"
| "sixty _ = []"

definition fraction :: "string \<Rightarrow> string list" where
  "fraction r =
     (case r of [] \<Rightarrow> []
      | c # r' \<Rightarrow>
          if c = CHR ''.''
          then map (\<lambda>k. drop k r') (rev [1 ..< Suc (min 6 (length (takeWhile isdigit r')))])
          else [])"

definition zone_seconds :: "string \<Rightarrow> string list" where
  "zone_seconds r =
     concat (map (\<lambda>r1. concat (map (\<lambda>r2. fraction r2 @ [r2]) (sixty r1))) (opt_colon r)) @ [r]"

definition zone_rests :: "string \<Rightarrow> string list" where
  "zone_rests s =
     (case s of
        sg # a # b # r \<Rightarrow>
          if (sg = CHR ''+'' \<or> sg = CHR ''-'') \<and> isdigit a \<and> isdigit b
          then concat (map (\<lambda>r1. concat (map zone_seconds (sixty r1))) (opt_colon r))
          else []
      | _ \<Rightarrow> [])
     @ (case s of [] \<Rightarrow> [] | c # r \<Rightarrow> if c = CHR ''Z'' then [r] else [])"

text \<open>\<open>int(s)\<close> on a string of decimal digits.\<close>

definition dec :: "string \<Rightarrow> nat option" where
  "dec s = (if s \<noteq> [] \<and> list_all isdigit s
            then Some (foldl (\<lambda>n c. 10 * n + digit c) 0 s) else None)"

text \<open>
  The offset, in microseconds, that \<open>_strptime\<close> computes from the matched text \<open>z\<close>;
  \<open>None\<close> where it raises (colons used in one place only).
\<close>

definition zone_offset :: "string \<Rightarrow> int option" where
  "zone_offset z0 =
     (if z0 = ''Z'' then Some 0
      else
        let colon = (drop 3 z0 \<noteq> [] \<and> hd (drop 3 z0) = CHR '':'');
            z1 = (if colon then take 3 z0 @ drop 4 z0 else z0);
            bad = (colon \<and> length z1 > 5 \<and> hd (drop 5 z1) \<noteq> CHR '':'');
            z = (if colon \<and> length z1 > 5 then take 5 z1 @ drop 6 z1 else z1);
            sec = take 2 (drop 5 z);
            rem = drop 8 z
        in if bad then None
           else (case (dec (take 2 (drop 1 z)), dec (take 2 (drop 3 z)),
                       (if sec = [] then Some 0 else dec sec),
                       dec (rem @ replicate (6 - length rem) CHR ''0'')) of
                   (Some h, Some m, Some sc, Some us) \<Rightarrow>
                     (let off = (int h * 3600 + int m * 60 + int sc) * 1000000 + int us
                      in Some (if take 1 z = ''-'' then - off else off))
                 | _ \<Rightarrow> None))"

definition match_zone :: "fields \<Rightarrow> string \<Rightarrow> (fields \<times> string) list" where
  "match_zone f s =
     map (\<lambda>r. (case zone_offset (take (length s - length r) s) of
                  None \<Rightarrow> f\<lparr>f_bad := True\<rparr>
                | Some off \<Rightarrow> f\<lparr>f_zone := Some off\<rparr>, r))
         (zone_rests s)"

fun match_item :: "item \<Rightarrow> fields \<Rightarrow> string \<Rightarrow> (fields \<times> string) list" where
  "match_item Weekday f s = map (\<lambda>(i, r). (f, r)) (match_name a_weekday s)"
| "match_item Month f s = map (\<lambda>(i, r). (f\<lparr>f_month := Suc i\<rparr>, r)) (match_name a_month s)"
| "match_item Day f s = map (\<lambda>(v, r). (f\<lparr>f_day := v\<rparr>, r)) (match_day s)"
| "match_item Hour f s = map (\<lambda>(v, r). (f\<lparr>f_hour := v\<rparr>, r)) (match_hour s)"
| "match_item Minute f s = map (\<lambda>(v, r). (f\<lparr>f_minute := v\<rparr>, r)) (match_minute s)"
| "match_item Second f s = map (\<lambda>(v, r). (f\<lparr>f_second := v\<rparr>, r)) (match_second s)"
| "match_item Year f s = map (\<lambda>(v, r). (f\<lparr>f_year := v\<rparr>, r)) (match_year s)"
| "match_item MonthNum f s = map (\<lambda>(v, r). (f\<lparr>f_month := v\<rparr>, r)) (match_monthnum s)"
| "match_item Zone f s = match_zone f s"
| "match_item Space f s = map (\<lambda>r. (f, r)) (match_space s)"
| "match_item (Lit c) f s =
     (case s of [] \<Rightarrow> [] | c' # r \<Rightarrow> if c' = c then [(f, r)] else [])"

fun match_all :: "item list \<Rightarrow> fields \<Rightarrow> string \<Rightarrow> (fields \<times> string) list" where
  "match_all [] f s = [(f, s)]"
| "match_all (i # is) f s = concat (map (\<lambda>(f', r). match_all is f' r) (match_item i f s))"

definition no_fields :: fields where
  "no_fields = \<lparr>f_year = 1900, f_month = 1, f_day = 1, f_hour = 0, f_minute = 0,
                f_second = 0, f_zone = None, f_bad = False\<rparr>"

text \<open>The constructor call that ends \<open>strptime\<close>, with its range checks.\<close>

definition build :: "fields \<Rightarrow> error + datetime" where
  "build f =
     (if f_bad f \<or> f_year f < 1 \<or> 9999 < f_year f \<or> f_month f < 1 \<or> 12 < f_month f
         \<or> f_day f < 1 \<or> days_in_month (f_year f) (f_month f) < f_day f
         \<or> 23 < f_hour f \<or> 59 < f_minute f \<or> 59 < f_second f
         \<or> (case f_zone f of None \<Rightarrow> False | Some off \<Rightarrow> 86400000000 \<le> \<bar>off\<bar>)
      then Inl ValueError
      else Inr \<lparr>year = f_year f, month = f_month f, day = f_day f, hour = f_hour f,
                minute = f_minute f, second = f_second f, utcoffset = f_zone f\<rparr>)"

definition strptime :: "string \<Rightarrow> item list \<Rightarrow> error + datetime" where
  "strptime s fmt =
     (case match_all fmt no_fields s of
        [] \<Rightarrow> Inl ValueError
      | (f, r) # _ \<Rightarrow> if r \<noteq> [] then Inl ValueError else build f)"

text \<open>The three formats of the program.\<close>

definition fmt_naive :: "item list" where
  \<comment> \<open>\<open>'%a %b %d %H:%M:%S %Y'\<close>\<close>
  "fmt_naive = [Weekday, Space, Month, Space, Day, Space, Hour, Lit CHR '':'', Minute,
                Lit CHR '':'', Second, Space, Year]"

definition fmt_zone :: "item list" where
  \<comment> \<open>\<open>'%a %b %d %H:%M:%S %z %Y'\<close>\<close>
  "fmt_zone = [Weekday, Space, Month, Space, Day, Space, Hour, Lit CHR '':'', Minute,
               Lit CHR '':'', Second, Space, Zone, Space, Year]"


section \<open>The date parser (lines 23-29)\<close>

definition parse_twitter_date :: "string \<Rightarrow> bool \<Rightarrow> error + datetime" where
  "parse_twitter_date s ignore_time_zones =
     (if ignore_time_zones
      then (let parts = split_sp s
            in (case parts of
                  [] \<Rightarrow> Inl IndexError
                | _ \<Rightarrow> strptime (join_sp (take 4 parts @ [last parts])) fmt_naive))
      else strptime s fmt_zone)"

section \<open>The options (lines 33-48)\<close>

record config =
  top :: int
  start_date :: "datetime option"
  end_date :: "datetime option"



section \<open>The scan of one file (lines 54-82)\<close>

datatype log_entry =
    Loading string
  | Processed int
  | Failed int error
  | Found int int int
  | Top int
  | Table "(string \<times> int) list"

record state =
  counts :: counts
  num_tweets :: int
  num_failed :: int
  line_number :: int
  has_hashtags :: int
  log :: "log_entry list"

definition init_state :: state where
  "init_state = \<lparr>counts = [], num_tweets = 0, num_failed = 0, line_number = 0,
                  has_hashtags = 0, log = []\<rparr>"

text \<open>How the \<open>try\<close> block of one line ends.\<close>

datatype outcome = Completed | Skipped | Raised error

text \<open>Line 65: \<open>parse_twitter_date(tweet["created_at"])\<close>; only a string has \<open>split\<close>.\<close>

definition parse_created_at :: "'n json \<Rightarrow> error + datetime" where
  "parse_created_at v =
     (case v of JStr s \<Rightarrow> parse_twitter_date s True | _ \<Rightarrow> Inl AttributeError)"

text \<open>Line 67: the condition under which the tweet is ignored.\<close>

definition out_of_range :: "config \<Rightarrow> datetime \<Rightarrow> bool" where
  "out_of_range cfg sdate =
     ((case start_date cfg of None \<Rightarrow> False | Some sd \<Rightarrow> dt_less sdate sd)
      \<or> (case end_date cfg of None \<Rightarrow> False | Some ed \<Rightarrow> dt_less ed sdate))"

text \<open>
  Lines 70-75, in three steps; the second component of a result is the exception raised,
  if any. \<open>for_tags\<close> is the loop of lines 73-75 over the value of
  \<open>tweet["entities"]["hashtags"]\<close>.
\<close>

definition for_tags :: "'n json \<Rightarrow> state \<Rightarrow> state \<times> error option" where
  "for_tags h st =
     (case iter h of
        Inl e \<Rightarrow> (st, Some e)
      | Inr tags \<Rightarrow> (case count_tags tags (counts st) of (c, r) \<Rightarrow> (st\<lparr>counts := c\<rparr>, r)))"

definition in_entities :: "'n json \<Rightarrow> state \<Rightarrow> state \<times> error option" where
  "in_entities ents st =
     (case contains ents ''hashtags'' of
        Inl e \<Rightarrow> (st, Some e)
      | Inr b \<Rightarrow>
          if \<not> b then (st, None)
          else (case getitem ents ''hashtags'' of
                  Inl e \<Rightarrow> (st, Some e)
                | Inr h \<Rightarrow>
                    (case len h of
                       Inl e \<Rightarrow> (st, Some e)
                     | Inr n \<Rightarrow>
                         if n > 0 then for_tags h (st\<lparr>has_hashtags := has_hashtags st + 1\<rparr>)
                         else (st, None))))"

definition extract_hashtags :: "'n json \<Rightarrow> state \<Rightarrow> state \<times> error option" where
  "extract_hashtags tweet st =
     (case contains tweet ''entities'' of
        Inl e \<Rightarrow> (st, Some e)
      | Inr b \<Rightarrow>
          if \<not> b then (st, None)
          else (case getitem tweet ''entities'' of
                  Inl e \<Rightarrow> (st, Some e)
                | Inr ents \<Rightarrow> in_entities ents st))"

text \<open>
  Lines 62-78, the \<open>try\<close> block on a stripped, non-empty line. \<open>loads\<close> is \<open>json.loads\<close>,
  with \<open>None\<close> where it raises.
\<close>

definition try_line ::
  "config \<Rightarrow> (string \<Rightarrow> 'n json option) \<Rightarrow> state \<Rightarrow> string \<Rightarrow> state \<times> outcome" where
  "try_line cfg loads st l =
     (let st1 = st\<lparr>line_number := line_number st + 1\<rparr>
      in (case loads l of
            None \<Rightarrow> (st1, Raised ValueError)
          | Some tweet \<Rightarrow>
              (case getitem tweet ''created_at'' of
                 Inl e \<Rightarrow> (st1, Raised e)
               | Inr ca \<Rightarrow>
                   (case parse_created_at ca of
                      Inl e \<Rightarrow> (st1, Raised e)
                    | Inr sdate \<Rightarrow>
                        if out_of_range cfg sdate then (st1, Skipped)
                        else (case extract_hashtags tweet st1 of
                                (st2, Some e) \<Rightarrow> (st2, Raised e)
                              | (st2, None) \<Rightarrow>
                                  (let st3 = st2\<lparr>num_tweets := num_tweets st2 + 1\<rparr>
                                   in (if line_number st3 mod 50000 = 0
                                       then st3\<lparr>log := log st3 @ [Processed (line_number st3)]\<rparr>
                                       else st3, Completed)))))))"

text \<open>Lines 58-81, one turn of the loop over the lines, with the handler.\<close>

definition process_line ::
  "config \<Rightarrow> (string \<Rightarrow> 'n json option) \<Rightarrow> state \<Rightarrow> string \<Rightarrow> state" where
  "process_line cfg loads st l0 =
     (let l = strip l0
      in if length l = 0 then st
         else (case try_line cfg loads st l of
                 (st', Raised e) \<Rightarrow>
                   st'\<lparr>log := log st' @ [Failed (line_number st') e],
                       num_failed := num_failed st' + 1\<rparr>
               | (st', _) \<Rightarrow> st'))"

definition scan ::
  "config \<Rightarrow> (string \<Rightarrow> 'n json option) \<Rightarrow> state \<Rightarrow> string list \<Rightarrow> state" where
  "scan cfg loads st ls = foldl (process_line cfg loads) st ls"

section \<open>Reporting (lines 83-95)\<close>

text \<open>
  Line 86: \<open>sorted(counts.items(), key=operator.itemgetter(1), reverse=True)\<close>, a stable
  sort by descending count.
\<close>

definition sx :: "counts \<Rightarrow> (string \<times> int) list" where
  "sx c = sort_key (\<lambda>p. - snd p) c"

text \<open>Lines 91-94: the loop over \<open>enumerate(sx)\<close>, from index \<open>i\<close>.\<close>

fun add_rows :: "int \<Rightarrow> int \<Rightarrow> (string \<times> int) list \<Rightarrow> (string \<times> int) list" where
  "add_rows t i [] = []"
| "add_rows t i (pair # rest) = (if i > t then [] else pair # add_rows t (i + 1) rest)"

definition tab :: "config \<Rightarrow> counts \<Rightarrow> (string \<times> int) list" where
  "tab cfg c = add_rows (top cfg) 0 (sx c)"

definition report :: "config \<Rightarrow> state \<Rightarrow> log_entry list" where
  "report cfg st =
     [Found (has_hashtags st) (num_tweets st) (int (length (counts st))),
      Top (min (int (length (sx (counts st)))) (top cfg)),
      Table (tab cfg (counts st))]"

text \<open>Lines 51-95 for one file: what is written to the log.\<close>

definition process_file ::
  "config \<Rightarrow> (string \<Rightarrow> 'n json option) \<Rightarrow> string \<Rightarrow> string list \<Rightarrow> log_entry list" where
  "process_file cfg loads tweets_path ls =
     (let st = scan cfg loads init_state ls
      in Loading tweets_path # log st @ report cfg st)"

section \<open>Notions used to state the properties\<close>

text \<open>
  The record of a line that takes part in the aggregation: the line is not blank, it
  decodes, its \<open>created_at\<close> parses and the date is not out of the configured range.
\<close>

definition accepted ::
  "config \<Rightarrow> (string \<Rightarrow> 'n json option) \<Rightarrow> string \<Rightarrow> 'n json option" where
  "accepted cfg loads l0 =
     (if strip l0 = [] then None
      else (case loads (strip l0) of
              None \<Rightarrow> None
            | Some tweet \<Rightarrow>
                (case getitem tweet ''created_at'' of
                   Inl e \<Rightarrow> None
                 | Inr ca \<Rightarrow>
                     (case parse_created_at ca of
                        Inl e \<Rightarrow> None
                      | Inr sdate \<Rightarrow> if out_of_range cfg sdate then None else Some tweet))))"

text \<open>The hashtag entries of a record: the items of \<open>tweet["entities"]["hashtags"]\<close>.\<close>

definition entries_of :: "'n json \<Rightarrow> 'n json list" where
  "entries_of tweet =
     (case getitem tweet ''entities'' of
        Inl e \<Rightarrow> []
      | Inr ents \<Rightarrow>
          (case getitem ents ''hashtags'' of
             Inl e \<Rightarrow> []
           | Inr h \<Rightarrow> (case iter h of Inl e \<Rightarrow> [] | Inr tags \<Rightarrow> tags)))"

text \<open>The texts of the entries that come before the first entry without a text string.\<close>

fun texts_before_error :: "'n json list \<Rightarrow> string list" where
  "texts_before_error [] = []"
| "texts_before_error (tag # tags) =
     (case tag_text tag of Inl e \<Rightarrow> [] | Inr t \<Rightarrow> t # texts_before_error tags)"

definition line_texts ::
  "config \<Rightarrow> (string \<Rightarrow> 'n json option) \<Rightarrow> string \<Rightarrow> string list" where
  "line_texts cfg loads l =
     (case accepted cfg loads l of None \<Rightarrow> [] | Some tweet \<Rightarrow> texts_before_error (entries_of tweet))"

text \<open>\<open>counts[key] += 1\<close> for each key of a list, in order.\<close>

definition incr_all :: "string list \<Rightarrow> counts \<Rightarrow> counts" where
  "incr_all ks c = foldl (\<lambda>c k. incr k c) c ks"


text \<open>
  The hashtag entries of all records of a file that take part in the aggregation.
\<close>

definition file_entries ::
  "config \<Rightarrow> (string \<Rightarrow> 'n json option) \<Rightarrow> string list \<Rightarrow> 'n json list" where
  "file_entries cfg loads ls =
     concat (map (\<lambda>l. case accepted cfg loads l of None \<Rightarrow> [] | Some tweet \<Rightarrow> entries_of tweet) ls)"

text \<open>
  The layout the specification gives for a timestamp: weekday, month, day, time, an
  optional time zone token and the year, separated by single spaces, with the weekday,
  month, day, time and year of the form \<open>'%a %b %d %H:%M:%S %Y'\<close>.
\<close>

definition expected_layout :: "string \<Rightarrow> bool" where
  "expected_layout s =
     (let parts = split_sp s
      in (length parts = 5 \<or> length parts = 6)
         \<and> (case strptime (join_sp (take 4 parts @ [last parts])) fmt_naive of
               Inl e \<Rightarrow> False
             | Inr d \<Rightarrow> True))"

section \<open>Sample lines\<close>

text \<open>
  Lines of a tweet file used in the examples, with the value \<open>json.loads\<close> returns on
  each. \<open>line_garbage\<close> is not JSON; \<open>line_partial\<close> has a second hashtag entity without
  a text; \<open>line_midnight\<close> is dated midnight of 2 January 2024 and \<open>line_late\<close> one
  second later. \<open>jan2\<close> is the configuration of \<open>--start_date 2024-01-02 --end_date
  2024-01-02\<close>.
\<close>

definition line_foo :: string where
  \<open>line_foo = ''{"created_at":"Mon Jan 01 10:00:00 +0000 2024","entities":{"hashtags":[{"text":"Foo"}]}}''\<close>

definition tweet_foo :: "int json" where
  "tweet_foo =
     JObj [(''created_at'', JStr ''Mon Jan 01 10:00:00 +0000 2024''),
           (''entities'', JObj [(''hashtags'', JArr [JObj [(''text'', JStr ''Foo'')]])])]"

definition line_case :: string where
  \<open>line_case = ''{"created_at":"Mon Jan 01 10:00:00 +0000 2024","entities":{"hashtags":[{"text":"ABC"},{"text":" abc"}]}}''\<close>

definition tweet_case :: "int json" where
  "tweet_case =
     JObj [(''created_at'', JStr ''Mon Jan 01 10:00:00 +0000 2024''),
           (''entities'', JObj [(''hashtags'', JArr [JObj [(''text'', JStr ''ABC'')],
                                                    JObj [(''text'', JStr '' abc'')]])])]"

definition line_partial :: string where
  \<open>line_partial = ''{"created_at":"Mon Jan 01 10:00:00 +0000 2024","entities":{"hashtags":[{"text":"a"},{}]}}''\<close>

definition tweet_partial :: "int json" where
  "tweet_partial =
     JObj [(''created_at'', JStr ''Mon Jan 01 10:00:00 +0000 2024''),
           (''entities'', JObj [(''hashtags'', JArr [JObj [(''text'', JStr ''a'')], JObj []])])]"

definition line_late :: string where
  \<open>line_late = ''{"created_at":"Tue Jan 02 00:00:01 +0000 2024","entities":{"hashtags":[{"text":"late"}]}}''\<close>

definition tweet_late :: "int json" where
  "tweet_late =
     JObj [(''created_at'', JStr ''Tue Jan 02 00:00:01 +0000 2024''),
           (''entities'', JObj [(''hashtags'', JArr [JObj [(''text'', JStr ''late'')]])])]"

definition line_midnight :: string where
  \<open>line_midnight = ''{"created_at":"Tue Jan 02 00:00:00 +0000 2024","entities":{"hashtags":[{"text":"Midnight"}]}}''\<close>

definition tweet_midnight :: "int json" where
  "tweet_midnight =
     JObj [(''created_at'', JStr ''Tue Jan 02 00:00:00 +0000 2024''),
           (''entities'', JObj [(''hashtags'', JArr [JObj [(''text'', JStr ''Midnight'')]])])]"

definition line_garbage :: string where
  "line_garbage = ''not json''"

definition loads_sample :: "string \<Rightarrow> int json option" where
  "loads_sample =
     map_of [(line_foo, tweet_foo), (line_case, tweet_case), (line_partial, tweet_partial),
             (line_late, tweet_late), (line_midnight, tweet_midnight)]"

definition midnight_jan2 :: datetime where
  "midnight_jan2 = \<lparr>year = 2024, month = 1, day = 2, hour = 0, minute = 0, second = 0,
                     utcoffset = None\<rparr>"

definition jan2 :: config where
  "jan2 = \<lparr>top = 10, start_date = Some midnight_jan2, end_date = Some midnight_jan2\<rparr>"

definition no_bounds :: config where
  "no_bounds = \<lparr>top = 10, start_date = None, end_date = None\<rparr>"

section \<open>Lemmas about one line and about the scan\<close>

lemma count_tags_texts:
  "fst (count_tags tags c) = incr_all (map hashtag_key (texts_before_error tags)) c"
  by (induction tags arbitrary: c) (auto simp: incr_all_def split: sum.splits)

lemma for_tags_counts:
  "counts (fst (for_tags h st)) =
     incr_all (map hashtag_key (texts_before_error (case iter h of Inl e \<Rightarrow> [] | Inr tags \<Rightarrow> tags))) (counts st)"
proof (cases "iter h")
  case (Inl e)
  then show ?thesis by (simp add: for_tags_def incr_all_def)
next
  case (Inr tags)
  obtain c r where cr: "count_tags tags (counts st) = (c, r)" by force
  with count_tags_texts[of tags "counts st"] Inr show ?thesis
    by (simp add: for_tags_def)
qed

lemma for_tags_frame:
  "num_tweets (fst (for_tags h st)) = num_tweets st"
  "num_failed (fst (for_tags h st)) = num_failed st"
  "line_number (fst (for_tags h st)) = line_number st"
  "has_hashtags (fst (for_tags h st)) = has_hashtags st"
  "log (fst (for_tags h st)) = log st"
  by (auto simp: for_tags_def split: sum.splits prod.splits)

lemma len_iter: "len h = Inl e \<Longrightarrow> iter h = Inl TypeError"
  by (cases h) auto

lemma len_zero_iter: "len h = Inr n \<Longrightarrow> \<not> n > 0 \<Longrightarrow> iter h = Inr []"
  by (cases h) auto

lemma contains_getitem: "contains v k = Inr False \<Longrightarrow> \<exists>e. getitem v k = Inl e"
  by (cases v) (auto simp: map_of_eq_None_iff split: option.splits)

lemma contains_err_getitem: "contains v k = Inl e \<Longrightarrow> getitem v k = Inl TypeError"
  by (cases v) auto

lemma extract_hashtags_counts:
  "counts (fst (extract_hashtags tweet st)) =
     incr_all (map hashtag_key (texts_before_error (entries_of tweet))) (counts st)"
  apply (simp add: extract_hashtags_def in_entities_def entries_of_def split: sum.splits)
  apply (auto simp: for_tags_counts incr_all_def dest: contains_getitem contains_err_getitem len_iter len_zero_iter)
  done

lemma extract_hashtags_frame:
  "num_tweets (fst (extract_hashtags tweet st)) = num_tweets st"
  "num_failed (fst (extract_hashtags tweet st)) = num_failed st"
  "line_number (fst (extract_hashtags tweet st)) = line_number st"
  "log (fst (extract_hashtags tweet st)) = log st"
  by (auto simp: extract_hashtags_def in_entities_def for_tags_frame split: sum.splits)

lemma try_line_accepted:
  assumes "loads l = Some tw" "getitem tw ''created_at'' = Inr ca"
    "parse_created_at ca = Inr d" "\<not> out_of_range cfg d"
    "extract_hashtags tw (st\<lparr>line_number := line_number st + 1\<rparr>) = (st2, r)"
  shows "try_line cfg loads st l =
           (case r of
              Some e \<Rightarrow> (st2, Raised e)
            | None \<Rightarrow>
                (if (line_number st + 1) mod 50000 = 0
                 then st2\<lparr>num_tweets := num_tweets st + 1,
                          log := log st @ [Processed (line_number st + 1)]\<rparr>
                 else st2\<lparr>num_tweets := num_tweets st + 1\<rparr>, Completed))"
proof -
  have "num_tweets st2 = num_tweets st" "line_number st2 = line_number st + 1"
    "log st2 = log st"
    using extract_hashtags_frame[of tw "st\<lparr>line_number := line_number st + 1\<rparr>"] assms(5)
    by simp_all
  with assms show ?thesis
    by (simp add: try_line_def Let_def split: option.splits)
qed

lemma try_line_rejected:
  assumes "accepted cfg loads l0 = None" "strip l0 \<noteq> []"
  shows "\<exists>oc. try_line cfg loads st (strip l0) = (st\<lparr>line_number := line_number st + 1\<rparr>, oc)
           \<and> oc \<noteq> Completed"
  using assms
  by (auto simp: accepted_def try_line_def Let_def split: option.splits sum.splits if_splits)

lemma accepted_SomeD:
  assumes "accepted cfg loads l0 = Some tw"
  shows "strip l0 \<noteq> [] \<and> loads (strip l0) = Some tw
         \<and> (\<exists>ca d. getitem tw ''created_at'' = Inr ca \<and> parse_created_at ca = Inr d
                \<and> \<not> out_of_range cfg d)"
  using assms
  by (auto simp: accepted_def split: option.splits sum.splits if_splits)

lemma process_line_blank: "strip l0 = [] \<Longrightarrow> process_line cfg loads st l0 = st"
  by (simp add: process_line_def)

lemma process_line_nonblank:
  "strip l0 \<noteq> [] \<Longrightarrow> try_line cfg loads st (strip l0) = (st', oc) \<Longrightarrow>
   process_line cfg loads st l0 =
     (case oc of
        Raised e \<Rightarrow> st'\<lparr>log := log st' @ [Failed (line_number st') e],
                         num_failed := num_failed st' + 1\<rparr>
      | _ \<Rightarrow> st')"
  by (simp add: process_line_def split: outcome.splits)

lemma process_line_counts:
  "counts (process_line cfg loads st l0) =
     incr_all (map hashtag_key (line_texts cfg loads l0)) (counts st)"
proof (cases "strip l0 = []")
  case True
  then show ?thesis
    by (simp add: process_line_blank line_texts_def accepted_def incr_all_def)
next
  case nb: False
  show ?thesis
  proof (cases "accepted cfg loads l0")
    case None
    from try_line_rejected[OF None nb, of st] obtain oc where
      "try_line cfg loads st (strip l0) = (st\<lparr>line_number := line_number st + 1\<rparr>, oc)"
      by blast
    from process_line_nonblank[OF nb this] None show ?thesis
      by (simp add: line_texts_def incr_all_def split: outcome.splits)
  next
    case (Some tw)
    from accepted_SomeD[OF Some] obtain ca d where
      a: "loads (strip l0) = Some tw" "getitem tw ''created_at'' = Inr ca"
         "parse_created_at ca = Inr d" "\<not> out_of_range cfg d"
      by blast
    obtain st2 r where e: "extract_hashtags tw (st\<lparr>line_number := line_number st + 1\<rparr>) = (st2, r)"
      by force
    have c: "counts st2 = incr_all (map hashtag_key (texts_before_error (entries_of tw))) (counts st)"
      using extract_hashtags_counts[of tw "st\<lparr>line_number := line_number st + 1\<rparr>"] e by simp
    show ?thesis
      using try_line_accepted[where loads=loads and l="strip l0", OF a e] nb c Some
      by (cases r) (simp_all add: process_line_def line_texts_def)
  qed
qed

lemma process_line_line_number:
  "line_number (process_line cfg loads st l0) =
     line_number st + (if strip l0 = [] then 0 else 1)"
proof (cases "strip l0 = []")
  case True
  then show ?thesis by (simp add: process_line_blank)
next
  case nb: False
  obtain st' oc where t: "try_line cfg loads st (strip l0) = (st', oc)" by force
  have "line_number st' = line_number st + 1"
    using t extract_hashtags_frame(3)[of _ "st\<lparr>line_number := line_number st + 1\<rparr>"]
    by (auto simp: try_line_def Let_def split: option.splits sum.splits if_splits prod.splits
             dest!: arg_cong[where f=fst])
  with process_line_nonblank[OF nb t] nb show ?thesis
    by (simp split: outcome.splits)
qed


lemma incr_all_append: "incr_all (xs @ ys) c = incr_all ys (incr_all xs c)"
  by (simp add: incr_all_def)

lemma scan_Cons: "scan cfg loads st (l # ls) = scan cfg loads (process_line cfg loads st l) ls"
  by (simp add: scan_def)

lemma scan_append: "scan cfg loads st (xs @ ys) = scan cfg loads (scan cfg loads st xs) ys"
  by (simp add: scan_def)

lemma scan_counts:
  "counts (scan cfg loads st ls) =
     incr_all (map hashtag_key (concat (map (line_texts cfg loads) ls))) (counts st)"
proof (induction ls arbitrary: st)
  case Nil
  show ?case by (simp add: scan_def incr_all_def)
next
  case (Cons l ls)
  show ?case
    by (simp add: scan_Cons Cons.IH process_line_counts incr_all_append)
qed

lemma scan_line_number:
  "line_number (scan cfg loads st ls) =
     line_number st + int (length (filter (\<lambda>l. strip l \<noteq> []) ls))"
  by (induction ls arbitrary: st) (simp_all add: scan_def process_line_line_number)

lemma sum_incr: "sum_list (map snd (incr k c)) = sum_list (map snd c) + 1"
  by (induction c) auto

lemma sum_incr_all: "sum_list (map snd (incr_all ks c)) = sum_list (map snd c) + int (length ks)"
  by (induction ks arbitrary: c) (simp_all add: incr_all_def sum_incr)



lemma keys_incr: "map fst (incr k c) = (if k \<in> set (map fst c) then map fst c else map fst c @ [k])"
  by (induction c) (auto simp: rev_image_eqI)

lemma distinct_incr: "distinct (map fst c) \<Longrightarrow> distinct (map fst (incr k c))"
  by (simp add: keys_incr)

section \<open>Reporting: the rows of the table\<close>

lemma add_rows_take: "add_rows t i xs = take (nat (t + 1 - i)) xs"
proof (induction xs arbitrary: i)
  case Nil
  show ?case by simp
next
  case (Cons p ps)
  show ?case
  proof (cases "i > t")
    case True
    then show ?thesis by simp
  next
    case False
    then have "nat (t + 1 - i) = Suc (nat (t + 1 - (i + 1)))" by simp
    with False Cons.IH[of "i + 1"] show ?thesis by simp
  qed
qed

lemma sx_sorted: "sorted_wrt (\<lambda>p q. snd p \<ge> snd q) (sx c)"
proof -
  have "sorted (map (\<lambda>p. - snd p) (sx c))"
    by (simp add: sx_def)
  then show ?thesis
    by (simp add: sorted_map)
qed

text \<open>
  C1, as the code has it. The rows of the table are the pairs of the counts mapping in
  descending order of count (pairs of equal count in insertion order), cut after the
  row of index \<open>N\<close>, where \<open>N\<close> is the value of \<open>--top\<close>: the first \<open>N + 1\<close> pairs when
  \<open>N \<ge> -1\<close> and none when \<open>N\<close> is smaller, so the table has \<open>min D (max (N + 1) 0)\<close> data
  rows for \<open>D\<close> distinct hashtags. It is the last thing logged for a file.
\<close>

theorem top_rows:
  "sorted_wrt (\<lambda>p q. snd p \<ge> snd q) (sx c)
   \<and> mset (sx c) = mset c
   \<and> filter (\<lambda>p. snd p = n) (sx c) = filter (\<lambda>p. snd p = n) c
   \<and> tab cfg c = take (nat (top cfg + 1)) (sx c)
   \<and> length (tab cfg c) = min (length c) (nat (top cfg + 1))
   \<and> last (process_file cfg loads tweets_path ls)
       = Table (take (nat (top cfg + 1)) (sx (counts (scan cfg loads init_state ls))))"
proof -
  have st: "filter (\<lambda>p. snd p = n) (sx c) = filter (\<lambda>p. snd p = n) c"
    using sort_key_stable[of "\<lambda>p. - snd p" "- n" c] by (simp add: sx_def)
  have t: "tab cfg c = take (nat (top cfg + 1)) (sx c)" for c
    by (simp add: tab_def add_rows_take)
  have l: "length (sx c) = length c" by (simp add: sx_def)
  show ?thesis
    using sx_sorted[of c] st t l
    by (simp add: process_file_def report_def Let_def sx_def min.commute)
qed

text \<open>
  C1 as stated gives \<open>min D (N + 1)\<close> rows for every \<open>--top\<close> value. With \<open>--top=-3\<close> and
  one hashtag the table has no row, and \<open>min 1 (-3 + 1)\<close> is \<open>-2\<close>.
\<close>

theorem top_rows_counterexample:
  "int (length (tab \<lparr>top = - 3, start_date = None, end_date = None\<rparr> [(''#a'', 1)]))
     \<noteq> min (int (length [(''#a'', 1 :: int)])) (- 3 + 1)"
  by (simp add: tab_def sx_def)

section \<open>Blank lines\<close>

text \<open>
  C8. A line that is empty after stripping white space leaves the whole state as it
  was: counts, failure counter, line counter, processed counter and log. The scan of a
  file gives the same state with or without such a line.
\<close>

theorem blank_line_skipped:
  assumes "strip l = []"
  shows "process_line cfg loads st l = st
         \<and> scan cfg loads st (xs @ l # ys) = scan cfg loads st (xs @ ys)"
  using assms by (simp add: scan_append scan_Cons process_line_blank)

theorem blank_line_skipped_witness:
  "strip ('' '' @ [CHR 0x09, CHR 0x0A]) = []
   \<and> process_line no_bounds loads_sample init_state ('' '' @ [CHR 0x09, CHR 0x0A]) = init_state
   \<and> scan no_bounds loads_sample init_state ([line_foo] @ ('' '' @ [CHR 0x09, CHR 0x0A]) # [line_case])
       = scan no_bounds loads_sample init_state ([line_foo] @ [line_case])"
proof -
  have b: "strip ('' '' @ [CHR 0x09, CHR 0x0A]) = []"
    by (simp add: strip_def isspace_def)
  show ?thesis
    using b blank_line_skipped[OF b, of no_bounds loads_sample init_state "[line_foo]" "[line_case]"]
    by simp
qed

section \<open>The key of a hashtag\<close>










section \<open>The date range\<close>



lemma strptime_head:
  assumes "strptime s fmt = Inr d"
  shows "\<exists>f. (f, []) \<in> set (match_all fmt no_fields s) \<and> build f = Inr d"
  using assms by (auto simp: strptime_def split: list.splits if_splits)

lemma build_fields:
  assumes "build f = Inr d"
  shows "hour d = f_hour f \<and> minute d = f_minute f \<and> second d = f_second f
         \<and> utcoffset d = f_zone f \<and> \<not> f_bad f \<and> year d = f_year f \<and> month d = f_month f
         \<and> day d = f_day f"
  using assms by (auto simp: build_def split: if_splits)




lemma out_of_range_iff:
  "out_of_range cfg sdate \<longleftrightarrow>
     (\<exists>sd. start_date cfg = Some sd \<and> dt_key sdate < dt_key sd)
     \<or> (\<exists>ed. end_date cfg = Some ed \<and> dt_key ed < dt_key sdate)"
  by (auto simp: out_of_range_def dt_less_def split: option.splits)

text \<open>
  C3. For a non-blank line that decodes and whose \<open>created_at\<close> parses to \<open>sdate\<close>: the
  record is ignored exactly when a start date is set and \<open>sdate\<close> is strictly before it,
  or an end date is set and \<open>sdate\<close> is strictly after it, so a date equal to a bound is
  inside and a bound that is not set excludes nothing. An ignored record changes nothing
  but the line counter: counts, processed counter, failure counter and log stay as they
  were. A record inside the range whose hashtag extraction raises nothing adds one to
  the processed counter and its hashtags to the counts.
\<close>

theorem date_filter:
  assumes "strip l \<noteq> []" "loads (strip l) = Some tweet"
    "getitem tweet ''created_at'' = Inr ca" "parse_created_at ca = Inr sdate"
  shows "(out_of_range cfg sdate \<longleftrightarrow>
            (\<exists>sd. start_date cfg = Some sd \<and> dt_key sdate < dt_key sd)
            \<or> (\<exists>ed. end_date cfg = Some ed \<and> dt_key ed < dt_key sdate))
       \<and> (out_of_range cfg sdate \<longrightarrow>
            process_line cfg loads st l = st\<lparr>line_number := line_number st + 1\<rparr>)
       \<and> (\<not> out_of_range cfg sdate
            \<and> snd (extract_hashtags tweet (st\<lparr>line_number := line_number st + 1\<rparr>)) = None \<longrightarrow>
            num_tweets (process_line cfg loads st l) = num_tweets st + 1
            \<and> counts (process_line cfg loads st l)
                = incr_all (map hashtag_key (texts_before_error (entries_of tweet))) (counts st))"
proof (intro conjI impI)
  show "out_of_range cfg sdate \<longleftrightarrow>
            (\<exists>sd. start_date cfg = Some sd \<and> dt_key sdate < dt_key sd)
            \<or> (\<exists>ed. end_date cfg = Some ed \<and> dt_key ed < dt_key sdate)"
    by (rule out_of_range_iff)
next
  assume "out_of_range cfg sdate"
  with assms show "process_line cfg loads st l = st\<lparr>line_number := line_number st + 1\<rparr>"
    by (simp add: process_line_def try_line_def)
next
  assume a: "\<not> out_of_range cfg sdate
            \<and> snd (extract_hashtags tweet (st\<lparr>line_number := line_number st + 1\<rparr>)) = None"
  then obtain st2 where
    e: "extract_hashtags tweet (st\<lparr>line_number := line_number st + 1\<rparr>) = (st2, None)"
    by (metis prod.collapse)
  from a have n: "\<not> out_of_range cfg sdate" by simp
  from try_line_accepted[where loads=loads and l="strip l", OF assms(2,3,4) n e] assms(1)
  show "num_tweets (process_line cfg loads st l) = num_tweets st + 1"
    by (simp add: process_line_def)
next
  assume a: "\<not> out_of_range cfg sdate
            \<and> snd (extract_hashtags tweet (st\<lparr>line_number := line_number st + 1\<rparr>)) = None"
  with assms have "accepted cfg loads l = Some tweet"
    by (simp add: accepted_def)
  then show "counts (process_line cfg loads st l)
                = incr_all (map hashtag_key (texts_before_error (entries_of tweet))) (counts st)"
    by (simp add: process_line_counts line_texts_def)
qed

theorem date_filter_witness:
  "process_line jan2 loads_sample init_state line_late = init_state\<lparr>line_number := 1\<rparr>
   \<and> num_tweets (process_line jan2 loads_sample init_state line_midnight) = 1
   \<and> counts (process_line jan2 loads_sample init_state line_midnight) = [(''#midnight'', 1)]
   \<and> parse_created_at (JStr ''Tue Jan 02 00:00:00 +0000 2024'' :: int json) = Inr midnight_jan2
   \<and> start_date jan2 = Some midnight_jan2 \<and> end_date jan2 = Some midnight_jan2"
proof -
  let ?late = "\<lparr>year = 2024, month = 1, day = 2, hour = 0, minute = 0, second = 1,
                utcoffset = None\<rparr>"
  have l1: "strip line_late \<noteq> []" by code_simp
  have l2: "loads_sample (strip line_late) = Some tweet_late" by code_simp
  have l3: "getitem tweet_late ''created_at'' = Inr (JStr ''Tue Jan 02 00:00:01 +0000 2024'')"
    by code_simp
  have l4: "parse_created_at (JStr ''Tue Jan 02 00:00:01 +0000 2024'' :: int json) = Inr ?late"
    by code_simp
  have l5: "out_of_range jan2 ?late" by code_simp
  from date_filter[where loads=loads_sample and l=line_late and cfg=jan2 and st=init_state, OF l1 l2 l3 l4] l5
  have a: "process_line jan2 loads_sample init_state line_late = init_state\<lparr>line_number := 1\<rparr>"
    by (simp add: init_state_def)
  have m1: "strip line_midnight \<noteq> []" by code_simp
  have m2: "loads_sample (strip line_midnight) = Some tweet_midnight" by code_simp
  have m3: "getitem tweet_midnight ''created_at'' = Inr (JStr ''Tue Jan 02 00:00:00 +0000 2024'')"
    by code_simp
  have m4: "parse_created_at (JStr ''Tue Jan 02 00:00:00 +0000 2024'' :: int json) = Inr midnight_jan2"
    by code_simp
  have m5: "\<not> out_of_range jan2 midnight_jan2" by code_simp
  have m6: "snd (extract_hashtags tweet_midnight (init_state\<lparr>line_number := line_number init_state + 1\<rparr>)) = None"
    by code_simp
  have m7: "incr_all (map hashtag_key (texts_before_error (entries_of tweet_midnight))) (counts init_state)
              = [(''#midnight'', 1)]"
    by code_simp
  from date_filter[where loads=loads_sample and l=line_midnight and cfg=jan2 and st=init_state, OF m1 m2 m3 m4] m5 m6
  have b: "num_tweets (process_line jan2 loads_sample init_state line_midnight) = num_tweets init_state + 1
           \<and> counts (process_line jan2 loads_sample init_state line_midnight)
              = incr_all (map hashtag_key (texts_before_error (entries_of tweet_midnight))) (counts init_state)"
    by blast
  have c: "num_tweets init_state = 0" by (simp add: init_state_def)
  have d: "start_date jan2 = Some midnight_jan2 \<and> end_date jan2 = Some midnight_jan2"
    by (simp add: jan2_def)
  from a b c d m4 m7 show ?thesis by simp
qed





section \<open>Failing lines and the sum of the counts\<close>

lemma try_line_frame:
  assumes "strip l0 \<noteq> []" "try_line cfg loads st (strip l0) = (st1, oc)"
  shows "line_number st1 = line_number st + 1 \<and> num_failed st1 = num_failed st
         \<and> (oc \<noteq> Completed \<longrightarrow> num_tweets st1 = num_tweets st \<and> log st1 = log st)
         \<and> (oc = Completed \<longrightarrow> num_tweets st1 = num_tweets st + 1
              \<and> log st1 = log st @ (if (line_number st + 1) mod 50000 = 0
                                     then [Processed (line_number st + 1)] else []))"
proof (cases "accepted cfg loads l0")
  case None
  from try_line_rejected[OF None assms(1), of st] assms(2) show ?thesis
    by auto
next
  case (Some tw)
  from accepted_SomeD[OF Some] obtain ca d where
    a: "loads (strip l0) = Some tw" "getitem tw ''created_at'' = Inr ca"
       "parse_created_at ca = Inr d" "\<not> out_of_range cfg d"
    by blast
  obtain st2 r where e: "extract_hashtags tw (st\<lparr>line_number := line_number st + 1\<rparr>) = (st2, r)"
    by force
  have f: "num_tweets st2 = num_tweets st" "num_failed st2 = num_failed st"
    "line_number st2 = line_number st + 1" "log st2 = log st"
    using extract_hashtags_frame[of tw "st\<lparr>line_number := line_number st + 1\<rparr>"] e
    by simp_all
  from try_line_accepted[where loads=loads and l="strip l0", OF a e] assms(2) f
  show ?thesis
    by (cases r) (auto split: if_splits)
qed

lemma process_line_not_accepted:
  assumes "accepted cfg loads l = None"
  shows "counts (process_line cfg loads st l) = counts st
         \<and> num_tweets (process_line cfg loads st l) = num_tweets st
         \<and> has_hashtags (process_line cfg loads st l) = has_hashtags st
         \<and> (\<forall>k. Processed k \<in> set (log (process_line cfg loads st l))
                \<longrightarrow> Processed k \<in> set (log st))"
proof (cases "strip l = []")
  case True
  then show ?thesis by (simp add: process_line_blank)
next
  case False
  from try_line_rejected[OF assms False, of st] obtain oc where
    "try_line cfg loads st (strip l) = (st\<lparr>line_number := line_number st + 1\<rparr>, oc)"
    by blast
  from process_line_nonblank[OF False this] show ?thesis
    by (cases oc) auto
qed

text \<open>
  C4, as the code has it. For a non-blank line whose processing raises: the failure
  counter goes up by one, the line counter goes up by one, the processed counter is as
  before, one error with the line number is logged, and the scan goes on with the next
  line. When the line is not JSON, has no \<open>created_at\<close> or has one that does not
  parse, the counts are as before. When the exception comes from the hashtag entities of
  a record inside the date range, the increments made for the entities before the
  failing one stay: nothing is rolled back.
\<close>

theorem failed_line:
  assumes "strip l \<noteq> []" "try_line cfg loads st (strip l) = (st1, Raised e)"
  shows "num_failed (process_line cfg loads st l) = num_failed st + 1
       \<and> line_number (process_line cfg loads st l) = line_number st + 1
       \<and> num_tweets (process_line cfg loads st l) = num_tweets st
       \<and> log (process_line cfg loads st l) = log st @ [Failed (line_number st + 1) e]
       \<and> scan cfg loads st (l # ls) = scan cfg loads (process_line cfg loads st l) ls
       \<and> (loads (strip l) = None
           \<or> (\<exists>tweet. loads (strip l) = Some tweet
                \<and> ((\<exists>e'. getitem tweet ''created_at'' = Inl e')
                    \<or> (\<exists>ca e'. getitem tweet ''created_at'' = Inr ca
                          \<and> parse_created_at ca = Inl e')))
           \<longrightarrow> counts (process_line cfg loads st l) = counts st)
       \<and> (accepted cfg loads l = Some tweet \<longrightarrow>
            counts (process_line cfg loads st l)
              = incr_all (map hashtag_key (texts_before_error (entries_of tweet))) (counts st))"
proof -
  note f = try_line_frame[OF assms]
  have p: "process_line cfg loads st l =
             st1\<lparr>log := log st1 @ [Failed (line_number st1) e], num_failed := num_failed st1 + 1\<rparr>"
    using process_line_nonblank[OF assms] by simp
  have g: "counts (process_line cfg loads st l) = counts st"
    if "loads (strip l) = None
           \<or> (\<exists>tweet. loads (strip l) = Some tweet
                \<and> ((\<exists>e'. getitem tweet ''created_at'' = Inl e')
                    \<or> (\<exists>ca e'. getitem tweet ''created_at'' = Inr ca
                          \<and> parse_created_at ca = Inl e')))"
  proof -
    from that have "accepted cfg loads l = None"
      by (auto simp: accepted_def)
    then show ?thesis by (simp add: process_line_not_accepted)
  qed
  have h: "counts (process_line cfg loads st l)
              = incr_all (map hashtag_key (texts_before_error (entries_of tweet))) (counts st)"
    if "accepted cfg loads l = Some tweet"
    using that by (simp add: process_line_counts line_texts_def)
  from f p g h show ?thesis
    by (simp add: scan_Cons)
qed


theorem failed_line_witness:
  "try_line no_bounds loads_sample init_state (strip line_garbage)
     = (init_state\<lparr>line_number := 1\<rparr>, Raised ValueError)
   \<and> loads_sample (strip line_garbage) = None
   \<and> num_failed (process_line no_bounds loads_sample init_state line_garbage) = 1
   \<and> counts (process_line no_bounds loads_sample init_state line_garbage) = []
   \<and> log (process_line no_bounds loads_sample init_state line_garbage) = [Failed 1 ValueError]
   \<and> accepted no_bounds loads_sample line_partial = Some tweet_partial
   \<and> log (process_line no_bounds loads_sample init_state line_partial) = [Failed 1 KeyError]
   \<and> counts (process_line no_bounds loads_sample init_state line_partial) = [(''#a'', 1)]"
proof -
  have g1: "strip line_garbage \<noteq> []" by code_simp
  have g2: "try_line no_bounds loads_sample init_state (strip line_garbage)
              = (init_state\<lparr>line_number := 1\<rparr>, Raised ValueError)"
    by code_simp
  have g3: "loads_sample (strip line_garbage) = None" by code_simp
  have i: "num_failed init_state = 0" "line_number init_state = 0" "log init_state = []"
    "counts init_state = []"
    by (simp_all add: init_state_def)
  from failed_line[where loads=loads_sample and l=line_garbage and cfg=no_bounds
      and st=init_state, OF g1 g2] g3 i
  have a: "num_failed (process_line no_bounds loads_sample init_state line_garbage) = 1
     \<and> counts (process_line no_bounds loads_sample init_state line_garbage) = []
     \<and> log (process_line no_bounds loads_sample init_state line_garbage) = [Failed 1 ValueError]"
    by simp
  have p1: "strip line_partial \<noteq> []" by code_simp
  have p2: "try_line no_bounds loads_sample init_state (strip line_partial)
              = (\<lparr>counts = [(''#a'', 1)], num_tweets = 0, num_failed = 0, line_number = 1,
                   has_hashtags = 1, log = []\<rparr>, Raised KeyError)"
    by code_simp
  have p3: "accepted no_bounds loads_sample line_partial = Some tweet_partial" by code_simp
  have p4: "incr_all (map hashtag_key (texts_before_error (entries_of tweet_partial))) []
              = [(''#a'', 1)]"
    by code_simp
  from failed_line[where loads=loads_sample and l=line_partial and cfg=no_bounds
      and st=init_state and tweet=tweet_partial, OF p1 p2] p3 p4 i
  have b: "log (process_line no_bounds loads_sample init_state line_partial) = [Failed 1 KeyError]
     \<and> counts (process_line no_bounds loads_sample init_state line_partial) = [(''#a'', 1)]"
    by simp
  from a b g2 g3 p3 show ?thesis by blast
qed

text \<open>
  C4 as stated has the counts unchanged by every failing line. On \<open>line_partial\<close> the
  second entity has no text: the line fails, and \<open>#a\<close> of the first entity is counted.
\<close>

theorem failed_line_counterexample:
  "num_failed (process_line no_bounds loads_sample init_state line_partial)
     = num_failed init_state + 1
   \<and> counts (process_line no_bounds loads_sample init_state line_partial) \<noteq> counts init_state"
  by code_simp

lemma texts_length_all_good:
  "\<forall>tag\<in>set tags. \<exists>t. tag_text tag = Inr t \<Longrightarrow>
   length (texts_before_error tags) = length tags"
  by (induction tags) auto

text \<open>
  C5, as the code has it. After the scan of a file, the sum of the counts is the number
  of hashtag entries counted: over the records that take part in the aggregation, the
  entries that come before the first entry without a text string. When all entries of
  these records have a text string, it is the number of their hashtag entries.
\<close>

theorem hashtag_sum:
  "sum_list (map snd (counts (scan cfg loads init_state ls)))
     = int (length (concat (map (line_texts cfg loads) ls)))
   \<and> ((\<forall>l\<in>set ls. \<forall>tweet. accepted cfg loads l = Some tweet \<longrightarrow>
          (\<forall>tag\<in>set (entries_of tweet). \<exists>t. tag_text tag = Inr t)) \<longrightarrow>
        sum_list (map snd (counts (scan cfg loads init_state ls)))
          = int (length (file_entries cfg loads ls)))"
proof -
  have a: "sum_list (map snd (counts (scan cfg loads init_state ls)))
     = int (length (concat (map (line_texts cfg loads) ls)))"
    by (simp add: scan_counts sum_incr_all init_state_def)
  have b: "length (concat (map (line_texts cfg loads) ls)) = length (file_entries cfg loads ls)"
    if h: "\<forall>l\<in>set ls. \<forall>tweet. accepted cfg loads l = Some tweet \<longrightarrow>
          (\<forall>tag\<in>set (entries_of tweet). \<exists>t. tag_text tag = Inr t)"
  proof -
    have per: "length (line_texts cfg loads l)
            = length (case accepted cfg loads l of None \<Rightarrow> [] | Some tweet \<Rightarrow> entries_of tweet)"
      if "l \<in> set ls" for l
      using h that by (auto simp: line_texts_def texts_length_all_good split: option.splits)
    have eq: "map (length \<circ> line_texts cfg loads) ls
                 = map (length \<circ> (\<lambda>l. case accepted cfg loads l of None \<Rightarrow> []
                                          | Some tweet \<Rightarrow> entries_of tweet)) ls"
      by (rule map_cong[OF refl]) (simp add: per)
    have "length (concat (map (line_texts cfg loads) ls))
            = sum_list (map (length \<circ> line_texts cfg loads) ls)"
      by (simp add: length_concat)
    also have "\<dots> = sum_list (map (length \<circ> (\<lambda>l. case accepted cfg loads l of None \<Rightarrow> []
                                          | Some tweet \<Rightarrow> entries_of tweet)) ls)"
      by (simp only: eq)
    also have "\<dots> = length (file_entries cfg loads ls)"
      by (simp add: file_entries_def length_concat)
    finally show ?thesis .
  qed
  from a b show ?thesis by simp
qed

text \<open>
  C5 as stated equates the sum with the number of hashtag entries of the records not
  filtered out. The record of \<open>line_partial\<close> has two entries and one is counted.
\<close>

theorem hashtag_sum_counterexample:
  "sum_list (map snd (counts (scan no_bounds loads_sample init_state [line_partial])))
     \<noteq> int (length (file_entries no_bounds loads_sample [line_partial]))"
  by code_simp


theorem hashtag_sum_witness:
  "sum_list (map snd (counts (scan no_bounds loads_sample init_state
                                   [line_foo, '' '', line_garbage, line_case]))) = 3
   \<and> length (file_entries no_bounds loads_sample [line_foo, '' '', line_garbage, line_case]) = 3"
proof -
  have a: "accepted no_bounds loads_sample line_foo = Some tweet_foo"
    "accepted no_bounds loads_sample '' '' = None"
    "accepted no_bounds loads_sample line_garbage = None"
    "accepted no_bounds loads_sample line_case = Some tweet_case"
    by code_simp+
  have e: "entries_of tweet_foo = [JObj [(''text'', JStr ''Foo'')]]"
    "entries_of tweet_case = [JObj [(''text'', JStr ''ABC'')], JObj [(''text'', JStr '' abc'')]]"
    by code_simp+
  have t: "tag_text (JObj [(''text'', JStr ''Foo'')] :: int json) = Inr ''Foo''"
    "tag_text (JObj [(''text'', JStr ''ABC'')] :: int json) = Inr ''ABC''"
    "tag_text (JObj [(''text'', JStr '' abc'')] :: int json) = Inr '' abc''"
    by (simp_all add: tag_text_def)
  have h: "\<forall>l\<in>set [line_foo, '' '', line_garbage, line_case].
      \<forall>tweet. accepted no_bounds loads_sample l = Some tweet \<longrightarrow>
        (\<forall>tag\<in>set (entries_of tweet). \<exists>t. tag_text tag = Inr t)"
    using a e t by auto
  have n: "length (file_entries no_bounds loads_sample [line_foo, '' '', line_garbage, line_case]) = 3"
    by (simp add: file_entries_def a e)
  from hashtag_sum[of no_bounds loads_sample "[line_foo, '' '', line_garbage, line_case]"] h n
  show ?thesis by simp
qed

section \<open>Files without records\<close>





section \<open>The progress notice\<close>

lemma process_line_processed:
  assumes "Processed k \<in> set (log (process_line cfg loads st l))"
  shows "Processed k \<in> set (log st) \<or> k = line_number st + 1"
proof (cases "strip l = []")
  case True
  with assms show ?thesis by (simp add: process_line_blank)
next
  case False
  obtain st1 oc where t: "try_line cfg loads st (strip l) = (st1, oc)" by force
  from try_line_frame[OF False t] process_line_nonblank[OF False t] assms show ?thesis
    by (cases oc) (auto split: if_splits)
qed

lemma scan_processed:
  assumes "Processed k \<in> set (log (scan cfg loads st ls))"
  shows "Processed k \<in> set (log st)
         \<or> (line_number st < k \<and> k \<le> line_number (scan cfg loads st ls))"
  using assms
proof (induction ls arbitrary: st)
  case Nil
  then show ?case by (simp add: scan_def)
next
  case (Cons l ls)
  let ?s = "process_line cfg loads st l"
  from Cons.prems have "Processed k \<in> set (log (scan cfg loads ?s ls))"
    by (simp add: scan_Cons)
  from Cons.IH[OF this] have
    "Processed k \<in> set (log ?s) \<or> (line_number ?s < k \<and> k \<le> line_number (scan cfg loads ?s ls))" .
  moreover have "line_number st \<le> line_number ?s"
    by (simp add: process_line_line_number)
  moreover have "line_number ?s \<le> line_number (scan cfg loads ?s ls)"
    by (simp add: scan_line_number)
  moreover have "Processed k \<in> set (log ?s) \<Longrightarrow>
      Processed k \<in> set (log st) \<or> k = line_number st + 1 \<and> line_number ?s = line_number st + 1"
    using process_line_processed[of k cfg loads st l]
    by (auto simp: process_line_line_number process_line_blank split: if_splits)
  ultimately show ?case
    by (auto simp: scan_Cons)
qed

text \<open>
  C7. The progress notice of lines 77-78 is written at the end of the \<open>try\<close> block, after
  the \<open>continue\<close> of line 68. When the line that brings the line counter to 50,000 does
  not give a record that takes part in the aggregation (it is not JSON, has no
  \<open>created_at\<close> that parses, or is out of the date range), the counter reaches 50,000 and
  no notice for 50,000 is logged.
\<close>

theorem progress_notice_missed:
  assumes "length (filter (\<lambda>l. strip l \<noteq> []) ls) = 49999" "strip l \<noteq> []"
    "accepted cfg loads l = None"
  shows "line_number (scan cfg loads init_state (ls @ [l])) = 50000
       \<and> Processed 50000 \<notin> set (log (scan cfg loads init_state (ls @ [l])))"
proof -
  let ?s = "scan cfg loads init_state ls"
  have n: "line_number ?s = 49999"
    using assms(1) by (simp add: scan_line_number init_state_def)
  have "Processed 50000 \<notin> set (log ?s)"
    using scan_processed[of 50000 cfg loads init_state ls] n
    by (auto simp: init_state_def)
  with process_line_not_accepted[OF assms(3), of ?s]
  have "Processed 50000 \<notin> set (log (process_line cfg loads ?s l))" by blast
  moreover have "line_number (process_line cfg loads ?s l) = 50000"
    using n assms(2) by (simp add: process_line_line_number)
  ultimately show ?thesis
    by (simp add: scan_append scan_Cons scan_def)
qed

theorem progress_notice_missed_witness:
  "length (filter (\<lambda>l. strip l \<noteq> []) (replicate 49999 line_garbage)) = 49999
   \<and> strip line_garbage \<noteq> []
   \<and> accepted no_bounds loads_sample line_garbage = None
   \<and> line_number (scan no_bounds loads_sample init_state (replicate 49999 line_garbage @ [line_garbage])) = 50000
   \<and> Processed 50000 \<notin> set (log (scan no_bounds loads_sample init_state
                                     (replicate 49999 line_garbage @ [line_garbage])))"
proof -
  have g: "strip line_garbage \<noteq> []" by code_simp
  have a: "accepted no_bounds loads_sample line_garbage = None" by code_simp
  have f: "length (filter (\<lambda>l. strip l \<noteq> []) (replicate 49999 line_garbage)) = 49999"
    using g by simp
  from progress_notice_missed[OF f g a] f g a show ?thesis by blast
qed

section \<open>The date parser\<close>

lemma split_sp_not_Nil: "split_sp s \<noteq> []"
  by (induction s) (auto split: list.splits)

lemma split_sp_word: "CHR '' '' \<notin> set w \<Longrightarrow> split_sp w = [w]"
  by (induction w) auto

lemma split_sp_word_space:
  "CHR '' '' \<notin> set w \<Longrightarrow> split_sp (w @ CHR '' '' # r) = w # split_sp r"
  by (induction w) (auto split: list.splits)

lemma split_join:
  "ws \<noteq> [] \<Longrightarrow> \<forall>w\<in>set ws. CHR '' '' \<notin> set w \<Longrightarrow> split_sp (join_sp ws) = ws"
proof (induction ws rule: join_sp.induct)
  case 1
  then show ?case by simp
next
  case (2 w)
  then show ?case by (simp add: split_sp_word)
next
  case (3 w v vs)
  then show ?case by (simp add: split_sp_word_space)
qed

lemma match_item_keeps_zone:
  assumes "(f', r) \<in> set (match_item i f s)" "i \<noteq> Zone"
  shows "f_zone f' = f_zone f \<and> f_bad f' = f_bad f"
  using assms by (cases i) (auto split: list.splits if_splits)

lemma match_all_keeps_zone:
  assumes "(f', r) \<in> set (match_all items f s)" "Zone \<notin> set items"
  shows "f_zone f' = f_zone f \<and> f_bad f' = f_bad f"
  using assms
proof (induction items arbitrary: f s)
  case Nil
  then show ?case by simp
next
  case (Cons i items)
  from Cons.prems(1) obtain f1 r1 where
    m: "(f1, r1) \<in> set (match_item i f s)" "(f', r) \<in> set (match_all items f1 r1)"
    by auto
  from Cons.prems(2) have i: "i \<noteq> Zone" and r: "Zone \<notin> set items" by auto
  from match_item_keeps_zone[OF m(1) i] Cons.IH[OF m(2) r] show ?case by simp
qed

lemma match_item_zone_set:
  assumes "(f', r) \<in> set (match_item i f s)" "i = Zone \<or> f_zone f \<noteq> None \<or> f_bad f"
  shows "f_zone f' \<noteq> None \<or> f_bad f'"
proof (cases "i = Zone")
  case True
  with assms(1) show ?thesis
    by (auto simp: match_zone_def split: option.splits)
next
  case False
  with assms match_item_keeps_zone[OF assms(1) False] show ?thesis by auto
qed

lemma match_all_zone_set:
  assumes "(f', r) \<in> set (match_all items f s)" "Zone \<in> set items \<or> f_zone f \<noteq> None \<or> f_bad f"
  shows "f_zone f' \<noteq> None \<or> f_bad f'"
  using assms
proof (induction items arbitrary: f s)
  case Nil
  then show ?case by simp
next
  case (Cons i items)
  from Cons.prems(1) obtain f1 r1 where
    m: "(f1, r1) \<in> set (match_item i f s)" "(f', r) \<in> set (match_all items f1 r1)"
    by auto
  show ?case
  proof (cases "i = Zone \<or> f_zone f \<noteq> None \<or> f_bad f")
    case True
    from match_item_zone_set[OF m(1) True] Cons.IH[OF m(2)] show ?thesis by blast
  next
    case False
    with Cons.prems(2) have "Zone \<in> set items" by auto
    with Cons.IH[OF m(2)] show ?thesis by blast
  qed
qed

lemma strptime_naive:
  assumes "strptime s fmt_naive = Inr d"
  shows "utcoffset d = None"
proof -
  from strptime_head[OF assms] obtain f where
    f: "(f, []) \<in> set (match_all fmt_naive no_fields s)" "build f = Inr d" by blast
  have "Zone \<notin> set fmt_naive" by (simp add: fmt_naive_def)
  from match_all_keeps_zone[OF f(1) this] build_fields[OF f(2)] show ?thesis
    by (simp add: no_fields_def)
qed

lemma strptime_aware:
  assumes "strptime s fmt_zone = Inr d"
  shows "utcoffset d \<noteq> None"
proof -
  from strptime_head[OF assms] obtain f where
    f: "(f, []) \<in> set (match_all fmt_zone no_fields s)" "build f = Inr d" by blast
  have "Zone \<in> set fmt_zone" by (simp add: fmt_zone_def)
  then have "f_zone f \<noteq> None \<or> f_bad f"
    using match_all_zone_set[OF f(1)] by blast
  with build_fields[OF f(2)] show ?thesis by simp
qed

lemma strptime_error: "strptime s fmt = Inl e \<Longrightarrow> e = ValueError"
  by (auto simp: strptime_def build_def split: list.splits if_splits)

lemma parse_default:
  "parse_twitter_date s True
     = strptime (join_sp (take 4 (split_sp s) @ [last (split_sp s)])) fmt_naive"
  using split_sp_not_Nil[of s]
  by (simp add: parse_twitter_date_def Let_def split: list.splits)

text \<open>
  C6, as the code has it. In its default mode the parser splits the text at single
  spaces, keeps the first four tokens and the last one, drops every token in between
  (the time zone token and whatever else stands there) and parses the five tokens,
  joined by spaces, with \<open>'%a %b %d %H:%M:%S %Y'\<close>; a result is a naive timestamp. In
  strict mode it parses the whole text with \<open>'%a %b %d %H:%M:%S %z %Y'\<close>, and a result
  carries the offset. In both modes a failure is the \<open>ValueError\<close> of \<open>strptime\<close>, raised
  when the text that is parsed does not match the format.
\<close>

theorem date_parser:
  "parse_twitter_date s True
     = strptime (join_sp (take 4 (split_sp s) @ [last (split_sp s)])) fmt_naive
   \<and> ((\<forall>w\<in>set (a # b # c # d # mid @ [y]). CHR '' '' \<notin> set w) \<longrightarrow>
        parse_twitter_date (join_sp (a # b # c # d # mid @ [y])) True
          = strptime (join_sp [a, b, c, d, y]) fmt_naive)
   \<and> (parse_twitter_date s True = Inr dt \<longrightarrow> utcoffset dt = None)
   \<and> parse_twitter_date s False = strptime s fmt_zone
   \<and> (parse_twitter_date s False = Inr dt \<longrightarrow> utcoffset dt \<noteq> None)
   \<and> (parse_twitter_date s z = Inl e \<longrightarrow> e = ValueError)"
proof (intro conjI impI)
  show "parse_twitter_date s True
     = strptime (join_sp (take 4 (split_sp s) @ [last (split_sp s)])) fmt_naive"
    by (rule parse_default)
next
  assume h: "\<forall>w\<in>set (a # b # c # d # mid @ [y]). CHR '' '' \<notin> set w"
  have "split_sp (join_sp (a # b # c # d # mid @ [y])) = a # b # c # d # mid @ [y]"
    by (rule split_join[OF _ h]) simp
  then show "parse_twitter_date (join_sp (a # b # c # d # mid @ [y])) True
          = strptime (join_sp [a, b, c, d, y]) fmt_naive"
    by (simp add: parse_default)
next
  assume "parse_twitter_date s True = Inr dt"
  then show "utcoffset dt = None"
    by (simp add: parse_default strptime_naive)
next
  show "parse_twitter_date s False = strptime s fmt_zone"
    by (simp add: parse_twitter_date_def)
next
  assume "parse_twitter_date s False = Inr dt"
  then show "utcoffset dt \<noteq> None"
    using strptime_aware[of s dt] by (simp add: parse_twitter_date_def)
next
  assume p: "parse_twitter_date s z = Inl e"
  show "e = ValueError"
  proof (cases z)
    case True
    with p have "strptime (join_sp (take 4 (split_sp s) @ [last (split_sp s)])) fmt_naive = Inl e"
      by (simp add: parse_default)
    then show ?thesis by (rule strptime_error)
  next
    case False
    with p have "strptime s fmt_zone = Inl e"
      by (simp add: parse_twitter_date_def)
    then show ?thesis by (rule strptime_error)
  qed
qed

text \<open>
  C6 as stated has every text that does not match the expected layout fail. A text with
  seven tokens, a second token between the time and the year, is parsed.
\<close>

theorem date_parser_counterexample:
  "\<not> expected_layout ''Mon Jan 01 10:00:00 +0000 EXTRA 2024''
   \<and> parse_twitter_date ''Mon Jan 01 10:00:00 +0000 EXTRA 2024'' True
       = Inr \<lparr>year = 2024, month = 1, day = 1, hour = 10, minute = 0, second = 0,
              utcoffset = None\<rparr>"
  by code_simp

theorem date_parser_witness:
  "parse_twitter_date ''Mon Jan 01 10:00:00 +0000 EXTRA 2024'' True
       = strptime ''Mon Jan 01 10:00:00 2024'' fmt_naive
   \<and> parse_twitter_date ''Mon Jan 01 10:00:00 +0000 2024'' True
       = Inr \<lparr>year = 2024, month = 1, day = 1, hour = 10, minute = 0, second = 0,
              utcoffset = None\<rparr>
   \<and> parse_twitter_date ''Mon Jan 01 10:00:00 +0530 2024'' False
       = Inr \<lparr>year = 2024, month = 1, day = 1, hour = 10, minute = 0, second = 0,
              utcoffset = Some 19800000000\<rparr>
   \<and> parse_twitter_date ''2024-01-01'' True = Inl ValueError"
proof -
  have h: "\<forall>w\<in>set (''Mon'' # ''Jan'' # ''01'' # ''10:00:00'' # [''+0000'', ''EXTRA''] @ [''2024'']).
      CHR '' '' \<notin> set w"
    by simp
  from date_parser[of _ "''Mon''" "''Jan''" "''01''" "''10:00:00''" "[''+0000'', ''EXTRA'']" "''2024''"] h
  have a: "parse_twitter_date ''Mon Jan 01 10:00:00 +0000 EXTRA 2024'' True
       = strptime ''Mon Jan 01 10:00:00 2024'' fmt_naive"
    by simp
  have b: "parse_twitter_date ''Mon Jan 01 10:00:00 +0000 2024'' True
       = Inr \<lparr>year = 2024, month = 1, day = 1, hour = 10, minute = 0, second = 0,
              utcoffset = None\<rparr>"
    by code_simp
  have c: "parse_twitter_date ''Mon Jan 01 10:00:00 +0530 2024'' False
       = Inr \<lparr>year = 2024, month = 1, day = 1, hour = 10, minute = 0, second = 0,
              utcoffset = Some 19800000000\<rparr>"
    by code_simp
  have e: "parse_twitter_date ''2024-01-01'' True = Inl ValueError"
    by code_simp
  from a b c e show ?thesis by blast
qed

end
